theory Spec2Isabelle
  imports Complex_Main "HOL-Library.AList" "HOL-Library.Char_ord" "HOL-Library.List_Lexorder"
begin

section \<open>Python values used by make\_accessible.py\<close>

text \<open>
  A Python \<open>str\<close> is a sequence of Unicode code points and \<open>len\<close> counts code
  points, so recognised and extracted text is a list of code points. File names and
  messages are plain strings.
\<close>

type_synonym ustr = "nat list"

text \<open>
  Exceptions. \<open>except Exception\<close> catches every exception derived from
  \<open>Exception\<close>; \<open>sys.exit\<close> raises \<open>SystemExit\<close>, which is not derived from it and
  passes every \<open>except Exception\<close> handler of the program.
\<close>

datatype py_exception = Exception string | SystemExit string

text \<open>The characters \<open>str.strip()\<close> removes: those for which \<open>str.isspace\<close> holds.\<close>

definition py_isspace :: "nat \<Rightarrow> bool" where
  "py_isspace c =
     ((9 \<le> c \<and> c \<le> 13) \<or> (28 \<le> c \<and> c \<le> 32) \<or> c = 133 \<or> c = 160 \<or> c = 5760
      \<or> (8192 \<le> c \<and> c \<le> 8202) \<or> c = 8232 \<or> c = 8233 \<or> c = 8239 \<or> c = 8287
      \<or> c = 12288)"

definition strip :: "ustr \<Rightarrow> ustr" where
  "strip s = rev (dropWhile py_isspace (rev (dropWhile py_isspace s)))"

text \<open>
  The line boundaries of \<open>str.splitlines()\<close>: LF, VT, FF, CR, FS, GS, RS, NEL, LS and
  PS, with CR LF counting as one boundary. A final line break opens no further line.
\<close>

definition is_linebreak :: "nat \<Rightarrow> bool" where
  "is_linebreak c =
     ((10 \<le> c \<and> c \<le> 13) \<or> (28 \<le> c \<and> c \<le> 30) \<or> c = 133 \<or> c = 8232 \<or> c = 8233)"

fun splitlines_from :: "ustr \<Rightarrow> ustr \<Rightarrow> ustr list" where
  "splitlines_from cur [] = (if cur = [] then [] else [cur])"
| "splitlines_from cur [c] =
     (if is_linebreak c then [cur] else [cur @ [c]])"
| "splitlines_from cur (c # d # cs) =
     (if c = 13 \<and> d = 10 then cur # splitlines_from [] cs
      else if is_linebreak c then cur # splitlines_from [] (d # cs)
      else splitlines_from (cur @ [c]) (d # cs))"

definition splitlines :: "ustr \<Rightarrow> ustr list" where
  "splitlines s = splitlines_from [] s"

section \<open>The dependency check\<close>

text \<open>
  \<open>_require(module, package)\<close> imports a module and leaves the program through
  \<open>sys.exit\<close> with a message naming the package when the import fails. Which modules
  can be imported is a fact of the installation, the predicate \<open>importable\<close>.
\<close>

definition missing_dependency :: "string \<Rightarrow> string" where
  "missing_dependency pkg =
     ''Missing dependency: '' @ [CHR 0x27] @ pkg @ [CHR 0x27] @
     ''.  Install with:  pip install '' @ pkg"

definition require :: "(string \<Rightarrow> bool) \<Rightarrow> string \<Rightarrow> string \<Rightarrow> py_exception + unit" where
  "require importable modname package =
     (if importable modname then Inr () else Inl (SystemExit (missing_dependency package)))"

section \<open>Text detection\<close>

text \<open>
  What pdfplumber shows of a file: opening it raises, or it has pages, and
  \<open>page.extract_text()\<close> on a page raises, returns \<open>None\<close> or returns a string.
\<close>

datatype extraction = ExtractRaises string | ExtractNone | ExtractText ustr

datatype plumbed = OpenRaises string | Opened "extraction list"

text \<open>\<open>page.extract_text() or ""\<close>, for a page whose extraction returns.\<close>

fun text_or_empty :: "extraction \<Rightarrow> ustr" where
  "text_or_empty (ExtractText t) = t"
| "text_or_empty ExtractNone = []"
| "text_or_empty (ExtractRaises m) = []"

fun extract_raises :: "extraction \<Rightarrow> bool" where
  "extract_raises (ExtractRaises m) = True"
| "extract_raises ExtractNone = False"
| "extract_raises (ExtractText t) = False"

definition page_qualifies :: "int \<Rightarrow> extraction \<Rightarrow> bool" where
  "page_qualifies min_chars p = (int (length (strip (text_or_empty p))) \<ge> min_chars)"

text \<open>
  The loop over \<open>pdf.pages\<close>: \<open>Inr True\<close> is the \<open>return True\<close> inside the loop,
  \<open>Inr False\<close> is the loop running to its end, \<open>Inl\<close> is an exception leaving it.
\<close>

fun scan_pages :: "int \<Rightarrow> extraction list \<Rightarrow> py_exception + bool" where
  "scan_pages min_chars [] = Inr False"
| "scan_pages min_chars (ExtractRaises m # ps) = Inl (Exception m)"
| "scan_pages min_chars (p # ps) =
     (if page_qualifies min_chars p then Inr True else scan_pages min_chars ps)"

text \<open>The body of the \<open>try\<close> block: open the file, then scan its pages.\<close>

definition read_pdf_text :: "plumbed \<Rightarrow> int \<Rightarrow> py_exception + bool" where
  "read_pdf_text pl min_chars =
     (case pl of OpenRaises m \<Rightarrow> Inl (Exception m) | Opened ps \<Rightarrow> scan_pages min_chars ps)"

definition could_not_read :: "string \<Rightarrow> string \<Rightarrow> string" where
  "could_not_read name m = ''  [WARN] Could not read '' @ name @ '': '' @ m"

text \<open>
  \<open>has_extractable_text\<close>: the value is the boolean returned together with the lines
  printed, or the exception that leaves the function. The handler is
  \<open>except Exception\<close>, after which control reaches the final \<open>return False\<close>.
\<close>

definition has_extractable_text ::
  "(string \<Rightarrow> bool) \<Rightarrow> plumbed \<Rightarrow> string \<Rightarrow> int \<Rightarrow> py_exception + (bool \<times> string list)" where
  "has_extractable_text importable pl name min_chars =
     (case require importable ''pdfplumber'' ''pdfplumber'' of
        Inl e \<Rightarrow> Inl e
      | Inr u \<Rightarrow>
          (case read_pdf_text pl min_chars of
             Inr b \<Rightarrow> Inr (b, [])
           | Inl (Exception m) \<Rightarrow> Inr (False, [could_not_read name m])
           | Inl e \<Rightarrow> Inl e))"

section \<open>The invisible text layer\<close>

text \<open>
  A rasterised page is a PIL image: \<open>image.size\<close> gives its width and height in pixels,
  both integers. \<open>img_data\<close> stands for the pixels.
\<close>

record pil_image =
  img_w :: int
  img_h :: int
  img_data :: nat

text \<open>
  Python's \<open>/\<close> on integers is true division. It is modelled by exact division of
  rationals: the binary rounding of the quotient is not part of the model. A zero divisor
  raises \<open>ZeroDivisionError\<close>, which the model writes out.
\<close>

datatype draw_op = DrawString rat rat ustr

text \<open>
  A layer of a PDF page: the picture, or text drawn with a fill opacity, a font and a
  font size.
\<close>

datatype layer = ImageLayer pil_image | TextLayer rat string rat "draw_op list"

record pdf_page =
  box_w :: rat
  box_h :: rat
  layers :: "layer list"

text \<open>
  The loop \<open>for line in lines\<close>: a line that is not blank is drawn at \<open>(8, y)\<close>, then
  \<open>y\<close> goes down by 10, and the loop is left once \<open>y < 10\<close>.
\<close>

fun draw_lines :: "rat \<Rightarrow> ustr list \<Rightarrow> draw_op list" where
  "draw_lines y [] = []"
| "draw_lines y (line # rest) =
     (if strip line \<noteq> [] then [DrawString 8 y line] else []) @
     (if y - 10 < 10 then [] else draw_lines (y - 10) rest)"

text \<open>
  The text layer of one page: the page size in points from the pixels and the DPI, a
  canvas of that size with a fully transparent fill and Helvetica 8, and the lines drawn
  from \<open>y = pt_h - 12\<close> downwards.
\<close>

definition text_layer_page :: "pil_image \<Rightarrow> int \<Rightarrow> ustr \<Rightarrow> py_exception + pdf_page" where
  "text_layer_page img dpi bidi_text =
     (if dpi = 0 then Inl (Exception ''division by zero'')
      else
        (let pt_w = of_int (img_w img * 72) / of_int dpi;
             pt_h = of_int (img_h img * 72) / of_int dpi;
             lines = splitlines bidi_text;
             y = pt_h - 12
         in Inr \<lparr>box_w = pt_w, box_h = pt_h,
                 layers = [TextLayer 0 ''Helvetica'' 8 (draw_lines y lines)]\<rparr>))"

text \<open>
  Both pages that are merged are read back with \<open>PdfReader\<close> from a PDF that a library
  wrote, so the size of each is the number its writer printed. reportlab prints a number
  with \<open>fp_str\<close>: six decimals below 10, one fewer for every further digit before the
  point, and \<open>0\<close> for a number of at most \<open>1e-7\<close>. Pillow prints with \<open>%f\<close>, six
  decimals. Rounding is to the nearest value (a tie goes up here).
\<close>

definition to_decimals :: "nat \<Rightarrow> rat \<Rightarrow> rat" where
  "to_decimals d x = of_int (round (x * 10 ^ d)) / 10 ^ d"

definition reportlab_decimals :: "rat \<Rightarrow> nat" where
  "reportlab_decimals x =
     (if \<bar>x\<bar> < 10 then 6 else if \<bar>x\<bar> < 100 then 5 else if \<bar>x\<bar> < 1000 then 4
      else if \<bar>x\<bar> < 10000 then 3 else if \<bar>x\<bar> < 100000 then 2
      else if \<bar>x\<bar> < 1000000 then 1 else 0)"

definition reportlab_number :: "rat \<Rightarrow> rat" where
  "reportlab_number x =
     (if \<bar>x\<bar> \<le> 1 / 10 ^ 7 then 0 else to_decimals (reportlab_decimals x) x)"

definition pillow_number :: "rat \<Rightarrow> rat" where
  "pillow_number x = to_decimals 6 x"

text \<open>
  \<open>c.save()\<close> followed by \<open>PdfReader(packet).pages[0]\<close>: the text layer with its size
  as reportlab printed it.
\<close>

definition text_page_as_read :: "pdf_page \<Rightarrow> pdf_page" where
  "text_page_as_read text_page =
     text_page\<lparr>box_w := reportlab_number (box_w text_page),
                box_h := reportlab_number (box_h text_page)\<rparr>"

text \<open>
  \<open>image.save(buf, format="PDF", resolution=dpi)\<close> followed by
  \<open>PdfReader(img_pdf_buf).pages[0]\<close>: one page that shows the image, of
  \<open>pixels * 72 / resolution\<close> points each way as Pillow printed them.
  \<open>page.merge_page(other)\<close> of pypdf appends the other page's content to this page's and
  leaves this page's boxes as they are; it compares no sizes.
\<close>

definition image_page :: "pil_image \<Rightarrow> int \<Rightarrow> pdf_page" where
  "image_page img dpi =
     \<lparr>box_w = pillow_number (of_int (img_w img * 72) / of_int dpi),
      box_h = pillow_number (of_int (img_h img * 72) / of_int dpi),
      layers = [ImageLayer img]\<rparr>"

definition merge_page :: "pdf_page \<Rightarrow> pdf_page \<Rightarrow> pdf_page" where
  "merge_page img_page text_page = img_page\<lparr>layers := layers img_page @ layers text_page\<rparr>"

section \<open>Files and the libraries\<close>

text \<open>
  A path is a directory and a file name. A file is what was found on disk (its content
  is opaque: only the libraries read it), the empty file that \<open>mkstemp\<close> creates, a
  file opened for writing whose write failed, or the pages that \<open>PdfWriter\<close> wrote.
\<close>

type_synonym path = "string \<times> string"

datatype 'b disk_file = Bytes 'b | EmptyFile | PartialFile | PdfOut "pdf_page list"

type_synonym 'b fsys = "(path \<times> 'b disk_file) list"

text \<open>
  The libraries and the operating system, as far as the program calls them. A call that
  can fail returns \<open>Inl\<close> the message of the exception it raises, or a message option.
  \<open>temp_names\<close> are the random names \<open>mkstemp\<close> tries in turn. \<open>page_pdf_error\<close>
  stands for \<open>image.save\<close> or one of the two \<open>PdfReader\<close> calls of a page raising.
\<close>

record 'b env =
  can_import :: "string \<Rightarrow> bool"
  pdfplumber_open :: "'b disk_file \<Rightarrow> plumbed"
  convert_from_path :: "'b disk_file \<Rightarrow> int \<Rightarrow> string + pil_image list"
  image_to_string :: "pil_image \<Rightarrow> string + ustr"
  reshape :: "ustr \<Rightarrow> string + ustr"
  get_display :: "ustr \<Rightarrow> string + ustr"
  page_pdf_error :: "pil_image \<Rightarrow> int \<Rightarrow> string option"
  open_error :: "path \<Rightarrow> string option"
  write_error :: "path \<Rightarrow> string option"
  temp_names :: "string list"
  replace_error :: "path \<Rightarrow> path \<Rightarrow> string option"
  unlink_error :: "path \<Rightarrow> string option"
  mkdir_error :: "string \<Rightarrow> string option"

definition plumb :: "'b env \<Rightarrow> 'b fsys \<Rightarrow> path \<Rightarrow> plumbed" where
  "plumb env fs p =
     (case map_of fs p of
        None \<Rightarrow> OpenRaises ''No such file or directory''
      | Some f \<Rightarrow> pdfplumber_open env f)"

definition rasterize :: "'b env \<Rightarrow> 'b fsys \<Rightarrow> path \<Rightarrow> int \<Rightarrow> py_exception + pil_image list" where
  "rasterize env fs p dpi =
     (case map_of fs p of
        None \<Rightarrow> Inl (Exception ''No such file or directory'')
      | Some f \<Rightarrow>
          (case convert_from_path env f dpi of
             Inl m \<Rightarrow> Inl (Exception m)
           | Inr images \<Rightarrow> Inr images))"

text \<open>
  \<open>tempfile.mkstemp(dir=d, suffix=s)\<close>: the first candidate name that does not exist
  yet is created empty; with no usable name left the call raises.
\<close>

definition mkstemp :: "'b env \<Rightarrow> 'b fsys \<Rightarrow> string \<Rightarrow> string \<Rightarrow> py_exception + (path \<times> 'b fsys)" where
  "mkstemp env fs dir suffix =
     (case filter (\<lambda>n. map_of fs (dir, ''tmp'' @ n @ suffix) = None) (temp_names env) of
        [] \<Rightarrow> Inl (Exception ''No usable temporary file name found'')
      | n # ns \<Rightarrow>
          Inr ((dir, ''tmp'' @ n @ suffix),
               AList.update (dir, ''tmp'' @ n @ suffix) EmptyFile fs))"

definition os_replace :: "'b env \<Rightarrow> 'b fsys \<Rightarrow> path \<Rightarrow> path \<Rightarrow> py_exception + 'b fsys" where
  "os_replace env fs src dst =
     (case replace_error env src dst of
        Some m \<Rightarrow> Inl (Exception m)
      | None \<Rightarrow>
          (case map_of fs src of
             None \<Rightarrow> Inl (Exception ''No such file or directory'')
           | Some f \<Rightarrow> Inr (AList.update dst f (AList.delete src fs))))"

definition os_unlink :: "'b env \<Rightarrow> 'b fsys \<Rightarrow> path \<Rightarrow> py_exception + 'b fsys" where
  "os_unlink env fs p =
     (case unlink_error env p of
        Some m \<Rightarrow> Inl (Exception m)
      | None \<Rightarrow>
          (case map_of fs p of
             None \<Rightarrow> Inl (Exception ''No such file or directory'')
           | Some f \<Rightarrow> Inr (AList.delete p fs)))"

text \<open>
  \<open>with open(output_path, "wb") as f: writer.write(f)\<close>: the open can fail, which
  changes nothing; a write that fails leaves the file it had opened.
\<close>

definition write_pdf ::
  "'b env \<Rightarrow> 'b fsys \<Rightarrow> path \<Rightarrow> pdf_page list \<Rightarrow> py_exception option \<times> 'b fsys" where
  "write_pdf env fs output_path pages =
     (case open_error env output_path of
        Some m \<Rightarrow> (Some (Exception m), fs)
      | None \<Rightarrow>
          (case write_error env output_path of
             Some m \<Rightarrow> (Some (Exception m), AList.update output_path PartialFile fs)
           | None \<Rightarrow> (None, AList.update output_path (PdfOut pages) fs)))"

section \<open>OCR of one document\<close>

text \<open>
  One round of the loop over the images: OCR, reshaping, reordering, the text layer,
  the image page, the merge.
\<close>

definition ocr_page :: "'b env \<Rightarrow> int \<Rightarrow> pil_image \<Rightarrow> py_exception + pdf_page" where
  "ocr_page env dpi img =
     (case image_to_string env img of
        Inl m \<Rightarrow> Inl (Exception m)
      | Inr raw_text \<Rightarrow>
          (case reshape env raw_text of
             Inl m \<Rightarrow> Inl (Exception m)
           | Inr reshaped \<Rightarrow>
               (case get_display env reshaped of
                  Inl m \<Rightarrow> Inl (Exception m)
                | Inr bidi_text \<Rightarrow>
                    (case text_layer_page img dpi bidi_text of
                       Inl e \<Rightarrow> Inl e
                     | Inr text_page \<Rightarrow>
                         (case page_pdf_error env img dpi of
                            Some m \<Rightarrow> Inl (Exception m)
                          | None \<Rightarrow>
                              Inr (merge_page (image_page img dpi)
                                     (text_page_as_read text_page)))))))"

text \<open>The loop itself: \<open>writer.add_page\<close> appends each merged page to the writer.\<close>

fun add_pages :: "'b env \<Rightarrow> int \<Rightarrow> pil_image list \<Rightarrow> pdf_page list \<Rightarrow> py_exception + pdf_page list" where
  "add_pages env dpi [] writer = Inr writer"
| "add_pages env dpi (img # images) writer =
     (case ocr_page env dpi img of
        Inl e \<Rightarrow> Inl e
      | Inr img_page \<Rightarrow> add_pages env dpi images (writer @ [img_page]))"

fun require_all :: "(string \<Rightarrow> bool) \<Rightarrow> (string \<times> string) list \<Rightarrow> py_exception + unit" where
  "require_all importable [] = Inr ()"
| "require_all importable ((modname, package) # rest) =
     (case require importable modname package of
        Inl e \<Rightarrow> Inl e
      | Inr u \<Rightarrow> require_all importable rest)"

definition ocr_requirements :: "(string \<times> string) list" where
  "ocr_requirements =
     [(''pytesseract'', ''pytesseract''), (''pdf2image'', ''pdf2image''),
      (''reportlab.pdfgen.canvas'', ''reportlab''), (''reportlab.lib.pagesizes'', ''reportlab''),
      (''arabic_reshaper'', ''arabic_reshaper''), (''bidi.algorithm'', ''python-bidi'')]"

text \<open>
  \<open>ocr_pdf\<close>: the exception that leaves it, if any, and the files afterwards. The six
  \<open>_require\<close> calls come first; \<open>from pypdf import ...\<close> is a plain import, whose
  failure is an \<open>ImportError\<close>.
\<close>

definition ocr_pdf ::
  "'b env \<Rightarrow> 'b fsys \<Rightarrow> path \<Rightarrow> path \<Rightarrow> int \<Rightarrow> py_exception option \<times> 'b fsys" where
  "ocr_pdf env fs pdf_path output_path dpi =
     (case require_all (can_import env) ocr_requirements of
        Inl e \<Rightarrow> (Some e, fs)
      | Inr u \<Rightarrow>
          (if \<not> can_import env ''pypdf''
           then (Some (Exception (''No module named '' @ [CHR 0x27] @ ''pypdf'' @ [CHR 0x27])), fs)
           else
             (case rasterize env fs pdf_path dpi of
                Inl e \<Rightarrow> (Some e, fs)
              | Inr images \<Rightarrow>
                  (case add_pages env dpi images [] of
                     Inl e \<Rightarrow> (Some e, fs)
                   | Inr writer \<Rightarrow> write_pdf env fs output_path writer))))"

section \<open>The processing of a directory\<close>

text \<open>
  Left out of the model: what the program prints other than the detector's warnings,
  \<open>os.close\<close> on the descriptor of the temporary file and the closing of the
  pdfplumber document (neither is taken to fail), and interrupts from outside the
  program.
\<close>

text \<open>
  The state of \<open>process_directory\<close>: the files, the three lists, the warnings printed
  by the detector, and the exception that left the function, if one did. \<open>ocr_calls\<close>
  is a record of the documents \<open>ocr_pdf\<close> was called on; the program keeps no such list.
\<close>

record 'b run =
  disk :: "'b fsys"
  already_ok :: "path list"
  needs_ocr :: "path list"
  errors :: "(path \<times> string) list"
  warnings :: "string list"
  ocr_calls :: "path list"
  escaped :: "py_exception option"

definition ends_with :: "string \<Rightarrow> string \<Rightarrow> bool" where
  "ends_with suf s = (length suf \<le> length s \<and> drop (length s - length suf) s = suf)"

text \<open>\<open>sorted(directory.glob("*.pdf"))\<close>\<close>

definition glob_pdf :: "'b fsys \<Rightarrow> string \<Rightarrow> path list" where
  "glob_pdf fs directory =
     sort_key snd (filter (\<lambda>p. fst p = directory \<and> ends_with ''.pdf'' (snd p)) (map fst fs))"

text \<open>The first loop: every file is put on one of the three lists.\<close>

fun scan_files :: "'b env \<Rightarrow> path list \<Rightarrow> 'b run \<Rightarrow> 'b run" where
  "scan_files env [] st = st"
| "scan_files env (pdf # rest) st =
     (case has_extractable_text (can_import env) (plumb env (disk st) pdf) (snd pdf) 20 of
        Inr (found, out) \<Rightarrow>
          (if found
           then scan_files env rest
                  (st\<lparr>already_ok := already_ok st @ [pdf], warnings := warnings st @ out\<rparr>)
           else scan_files env rest
                  (st\<lparr>needs_ocr := needs_ocr st @ [pdf], warnings := warnings st @ out\<rparr>))
      | Inl (Exception m) \<Rightarrow> scan_files env rest (st\<lparr>errors := errors st @ [(pdf, m)]\<rparr>)
      | Inl (SystemExit m) \<Rightarrow> st\<lparr>escaped := Some (SystemExit m)\<rparr>)"

text \<open>
  The handler \<open>except Exception as e\<close> of the second loop: the error is recorded and a
  temporary file that still exists is removed. A \<open>SystemExit\<close> is not caught.
\<close>

definition on_failure :: "'b env \<Rightarrow> path \<Rightarrow> path option \<Rightarrow> py_exception \<Rightarrow> 'b run \<Rightarrow> 'b run" where
  "on_failure env pdf tmp e st =
     (case e of
        SystemExit m \<Rightarrow> st\<lparr>escaped := Some (SystemExit m)\<rparr>
      | Exception m \<Rightarrow>
          (case tmp of
             None \<Rightarrow> st\<lparr>errors := errors st @ [(pdf, m)]\<rparr>
           | Some t \<Rightarrow>
               (if map_of (disk st) t \<noteq> None
                then (case os_unlink env (disk st) t of
                        Inl e' \<Rightarrow> st\<lparr>errors := errors st @ [(pdf, m)], escaped := Some e'\<rparr>
                      | Inr fs' \<Rightarrow> st\<lparr>errors := errors st @ [(pdf, m)], disk := fs'\<rparr>)
                else st\<lparr>errors := errors st @ [(pdf, m)]\<rparr>)))"

text \<open>One round of the second loop, in place (no output directory) or into \<open>output_dir\<close>.\<close>

definition process_one :: "'b env \<Rightarrow> string option \<Rightarrow> int \<Rightarrow> path \<Rightarrow> 'b run \<Rightarrow> 'b run" where
  "process_one env output_dir dpi pdf st =
     (case output_dir of
        None \<Rightarrow>
          (case mkstemp env (disk st) (fst pdf) ''.tmp.pdf'' of
             Inl e \<Rightarrow> on_failure env pdf None e st
           | Inr (tmp, fs1) \<Rightarrow>
               (case ocr_pdf env fs1 pdf tmp dpi of
                  (Some e, fs2) \<Rightarrow>
                    on_failure env pdf (Some tmp) e
                      (st\<lparr>disk := fs2, ocr_calls := ocr_calls st @ [pdf]\<rparr>)
                | (None, fs2) \<Rightarrow>
                    (case os_replace env fs2 tmp pdf of
                       Inl e \<Rightarrow>
                         on_failure env pdf (Some tmp) e
                           (st\<lparr>disk := fs2, ocr_calls := ocr_calls st @ [pdf]\<rparr>)
                     | Inr fs3 \<Rightarrow> st\<lparr>disk := fs3, ocr_calls := ocr_calls st @ [pdf]\<rparr>)))
      | Some d \<Rightarrow>
          (case ocr_pdf env (disk st) pdf (d, snd pdf) dpi of
             (Some e, fs2) \<Rightarrow>
               on_failure env pdf None e (st\<lparr>disk := fs2, ocr_calls := ocr_calls st @ [pdf]\<rparr>)
           | (None, fs2) \<Rightarrow> st\<lparr>disk := fs2, ocr_calls := ocr_calls st @ [pdf]\<rparr>))"

fun ocr_loop :: "'b env \<Rightarrow> string option \<Rightarrow> int \<Rightarrow> path list \<Rightarrow> 'b run \<Rightarrow> 'b run" where
  "ocr_loop env output_dir dpi [] st = st"
| "ocr_loop env output_dir dpi (pdf # rest) st =
     (let st' = process_one env output_dir dpi pdf st
      in if escaped st' \<noteq> None then st' else ocr_loop env output_dir dpi rest st')"

definition make_output_dir :: "'b env \<Rightarrow> string option \<Rightarrow> py_exception option" where
  "make_output_dir env output_dir =
     (case output_dir of
        None \<Rightarrow> None
      | Some d \<Rightarrow> (case mkdir_error env d of None \<Rightarrow> None | Some m \<Rightarrow> Some (Exception m)))"

definition initial_run :: "'b fsys \<Rightarrow> 'b run" where
  "initial_run fs =
     \<lparr>disk = fs, already_ok = [], needs_ocr = [], errors = [], warnings = [],
      ocr_calls = [], escaped = None\<rparr>"

definition process_directory ::
  "'b env \<Rightarrow> 'b fsys \<Rightarrow> string \<Rightarrow> string option \<Rightarrow> bool \<Rightarrow> int \<Rightarrow> 'b run" where
  "process_directory env fs directory output_dir dry_run dpi =
     (let pdf_files = glob_pdf fs directory
      in if pdf_files = [] then initial_run fs
         else
           (let st1 = scan_files env pdf_files (initial_run fs)
            in if escaped st1 \<noteq> None then st1
               else if dry_run then st1
               else if needs_ocr st1 = [] then st1
               else
                 (case make_output_dir env output_dir of
                    Some e \<Rightarrow> st1\<lparr>escaped := Some e\<rparr>
                  | None \<Rightarrow> ocr_loop env output_dir dpi (needs_ocr st1) st1)))"

section \<open>An installation and a directory to run the program on\<close>

text \<open>
  A directory \<open>docs\<close> with a document of two scanned pages (\<open>b.pdf\<close>), a document
  that has its text (\<open>a.pdf\<close>), a file that is no PDF at all (\<open>c.pdf\<close>) and a file the
  program does not look at. Every library is installed and no system call fails; OCR
  reads the same three lines on every page.
\<close>

definition demo_env :: "nat env" where
  "demo_env =
     \<lparr>can_import = (\<lambda>m. True),
      pdfplumber_open = (\<lambda>f. case f of
          Bytes n \<Rightarrow> (if n = 10 then OpenRaises ''not a PDF''
                      else if n = 11 then Opened [ExtractNone, ExtractNone]
                      else Opened [ExtractText
                        [1576, 1587, 1605, 32, 1575, 1604, 1604, 1607, 32, 1575, 1604, 1585,
                         1581, 1605, 1606, 32, 1575, 1604, 1585, 1581, 1610, 1605, 10]])
        | EmptyFile \<Rightarrow> OpenRaises ''empty file''
        | PartialFile \<Rightarrow> OpenRaises ''broken file''
        | PdfOut ps \<Rightarrow> Opened (map (\<lambda>p. ExtractNone) ps)),
      convert_from_path = (\<lambda>f dpi. case f of
          Bytes n \<Rightarrow> (if n = 11
                      then Inr [\<lparr>img_w = 2550, img_h = 3300, img_data = 7\<rparr>,
                                \<lparr>img_w = 2550, img_h = 3300, img_data = 8\<rparr>]
                      else Inl ''Unable to get page count'')
        | EmptyFile \<Rightarrow> Inl ''Unable to get page count''
        | PartialFile \<Rightarrow> Inl ''Unable to get page count''
        | PdfOut ps \<Rightarrow> Inl ''Unable to get page count''),
      image_to_string = (\<lambda>img. Inr [72, 105, 10, 10, 66, 121, 101, 10]),
      reshape = (\<lambda>s. Inr s),
      get_display = (\<lambda>s. Inr s),
      page_pdf_error = (\<lambda>img dpi. None),
      open_error = (\<lambda>p. None),
      write_error = (\<lambda>p. None),
      temp_names = [''k3x9q2ab''],
      replace_error = (\<lambda>s d. None),
      unlink_error = (\<lambda>p. None),
      mkdir_error = (\<lambda>d. None)\<rparr>"

definition demo_fs :: "nat fsys" where
  "demo_fs =
     [((''docs'', ''b.pdf''), Bytes 11), ((''docs'', ''a.pdf''), Bytes 12),
      ((''docs'', ''c.pdf''), Bytes 10), ((''docs'', ''notes.txt''), Bytes 13)]"


section \<open>Properties\<close>

subsection \<open>The page loop of the detector\<close>

lemma scan_pages_no_raise:
  "list_all (\<lambda>p. \<not> extract_raises p) ps \<Longrightarrow>
   scan_pages min_chars ps = Inr (list_ex (page_qualifies min_chars) ps)"
  by (induction min_chars ps rule: scan_pages.induct) auto

lemma require_ok: "importable m \<Longrightarrow> require importable m p = Inr ()"
  by (simp add: require_def)

lemma scan_pages_exception:
  "scan_pages k ps = Inl e \<Longrightarrow> \<exists>m. e = Exception m"
  by (induction k ps rule: scan_pages.induct) (auto split: if_splits)

lemma read_pdf_text_exception:
  "read_pdf_text pl k = Inl e \<Longrightarrow> \<exists>m. e = Exception m"
  by (auto simp: read_pdf_text_def split: plumbed.splits dest: scan_pages_exception)

lemma scan_pages_stops_at_raise:
  "list_all (\<lambda>p. \<not> extract_raises p \<and> \<not> page_qualifies k p) pre \<Longrightarrow>
   scan_pages k (pre @ ExtractRaises m # post) = Inl (Exception m)"
  by (induction k pre rule: scan_pages.induct) auto

lemma scan_pages_found_before:
  "list_all (\<lambda>p. \<not> extract_raises p) pre \<Longrightarrow> list_ex (page_qualifies k) pre \<Longrightarrow>
   scan_pages k (pre @ rest) = Inr True"
  by (induction k pre rule: scan_pages.induct) auto

lemma scan_pages_true_iff:
  "scan_pages k ps = Inr True \<longleftrightarrow>
   list_ex (page_qualifies k) (takeWhile (\<lambda>p. \<not> extract_raises p) ps)"
  by (induction k ps rule: scan_pages.induct) auto

subsection \<open>C3: the detector on a document that opens\<close>

text \<open>
  C3 as it stands fails on a document that opens and has a page that cannot be parsed
  before the page with the text: here the second of three pages fails, the third holds
  twenty letters, and the detector returns false.
\<close>

theorem qualifying_page_after_failure_not_found:
  "has_extractable_text (\<lambda>m. True)
     (Opened [ExtractNone, ExtractRaises ''bad page'', ExtractText [32, 10, 1575, 1604, 1587, 1604, 1575, 1605, 1575, 1604, 1587, 1604, 1575, 1605, 1575, 1604, 1587, 1604, 1575, 1605, 1593, 1604, 32]])
     ''a.pdf'' 20 = Inr (False, [could_not_read ''a.pdf'' ''bad page''])
   \<and> 20 \<le> int (length (strip [32, 10, 1575, 1604, 1587, 1604, 1575, 1605, 1575, 1604, 1587, 1604, 1575, 1605, 1575, 1604, 1587, 1604, 1575, 1605, 1593, 1604, 32]))"
  by (simp add: has_extractable_text_def require_def read_pdf_text_def page_qualifies_def
      strip_def py_isspace_def)

text \<open>
  C3, amended. With pdfplumber installed and a document that opens, the detector
  returns true if and only if some page has at least \<open>min_chars\<close> characters after
  trimming and its text and the text of every page before it could be extracted: the
  pages from the first one that cannot be parsed onwards are not counted. When every
  page's text can be extracted this is: if and only if at least one page reaches the
  threshold, and nothing is printed. The program calls the detector with the default
  threshold 20.
\<close>

theorem detector_true_iff_page_qualifies_before_failure:
  assumes "importable ''pdfplumber''"
  shows "(\<exists>out. has_extractable_text importable (Opened ps) name min_chars =
            Inr ((\<exists>p \<in> set (takeWhile (\<lambda>p. \<not> extract_raises p) ps).
                    min_chars \<le> int (length (strip (text_or_empty p)))), out))
       \<and> (list_all (\<lambda>p. \<not> extract_raises p) ps \<longrightarrow>
            has_extractable_text importable (Opened ps) name min_chars =
              Inr ((\<exists>p \<in> set ps. min_chars \<le> int (length (strip (text_or_empty p)))), []))"
proof -
  let ?found = "\<exists>p \<in> set (takeWhile (\<lambda>p. \<not> extract_raises p) ps).
      min_chars \<le> int (length (strip (text_or_empty p)))"
  have t: "scan_pages min_chars ps = Inr True \<longleftrightarrow> ?found"
    by (simp add: scan_pages_true_iff list_ex_iff page_qualifies_def)
  have a: "\<exists>out. has_extractable_text importable (Opened ps) name min_chars = Inr (?found, out)"
  proof (cases "scan_pages min_chars ps")
    case (Inl e)
    then obtain m where "e = Exception m" using scan_pages_exception by blast
    with Inl t assms show ?thesis
      by (simp add: has_extractable_text_def require_ok read_pdf_text_def)
  next
    case (Inr b)
    with t assms show ?thesis
      by (simp add: has_extractable_text_def require_ok read_pdf_text_def)
  qed
  have b: "has_extractable_text importable (Opened ps) name min_chars =
      Inr ((\<exists>p \<in> set ps. min_chars \<le> int (length (strip (text_or_empty p)))), [])"
    if "list_all (\<lambda>p. \<not> extract_raises p) ps"
  proof -
    have "scan_pages min_chars ps = Inr (list_ex (page_qualifies min_chars) ps)"
      using that by (rule scan_pages_no_raise)
    moreover have "list_ex (page_qualifies min_chars) ps =
        (\<exists>p \<in> set ps. min_chars \<le> int (length (strip (text_or_empty p))))"
      by (simp add: list_ex_iff page_qualifies_def)
    ultimately show ?thesis
      using assms by (simp add: has_extractable_text_def require_ok read_pdf_text_def)
  qed
  from a b show ?thesis by blast
qed

text \<open>
  Three documents: one whose third page holds twenty letters between whitespace, one
  whose only text has nineteen, and one whose twenty letters come after a page that
  cannot be parsed.
\<close>

theorem detector_true_iff_page_qualifies_before_failure_witness:
  "has_extractable_text (\<lambda>m. True)
     (Opened [ExtractNone, ExtractText [32, 97, 10],
        ExtractText [32, 10, 1575, 1604, 1587, 1604, 1575, 1605, 1575, 1604, 1587, 1604, 1575, 1605, 1575, 1604, 1587, 1604, 1575, 1605, 1593, 1604, 32]])
     ''a.pdf'' 20 = Inr (True, [])
   \<and> has_extractable_text (\<lambda>m. True)
     (Opened [ExtractNone,
        ExtractText [32, 10, 1575, 1604, 1587, 1604, 1575, 1605, 1575, 1604, 1587, 1604, 1575, 1605, 1575, 1604, 1587, 1604, 1575, 1605, 1593, 32]])
     ''a.pdf'' 20 = Inr (False, [])
   \<and> (\<exists>out. has_extractable_text (\<lambda>m. True)
     (Opened [ExtractText [32, 97, 10], ExtractRaises ''bad page'',
        ExtractText [32, 10, 1575, 1604, 1587, 1604, 1575, 1605, 1575, 1604, 1587, 1604, 1575, 1605, 1575, 1604, 1587, 1604, 1575, 1605, 1593, 1604, 32]])
     ''a.pdf'' 20 = Inr (False, out))"
proof -
  have i: "(\<lambda>m::string. True) ''pdfplumber''" by simp
  have a: "list_all (\<lambda>p. \<not> extract_raises p)
      [ExtractNone, ExtractText [32, 97, 10],
        ExtractText [32, 10, 1575, 1604, 1587, 1604, 1575, 1605, 1575, 1604, 1587, 1604, 1575, 1605, 1575, 1604, 1587, 1604, 1575, 1605, 1593, 1604, 32]]"
    by simp
  have b: "list_all (\<lambda>p. \<not> extract_raises p)
      [ExtractNone,
        ExtractText [32, 10, 1575, 1604, 1587, 1604, 1575, 1605, 1575, 1604, 1587, 1604, 1575, 1605, 1575, 1604, 1587, 1604, 1575, 1605, 1593, 32]]"
    by simp
  note w1 = detector_true_iff_page_qualifies_before_failure [where importable = "\<lambda>m. True"
      and name = "''a.pdf''" and min_chars = 20
      and ps = "[ExtractNone, ExtractText [32, 97, 10],
        ExtractText [32, 10, 1575, 1604, 1587, 1604, 1575, 1605, 1575, 1604, 1587, 1604, 1575, 1605, 1575, 1604, 1587, 1604, 1575, 1605, 1593, 1604, 32]]", OF i, THEN conjunct2]
  note w2 = detector_true_iff_page_qualifies_before_failure [where importable = "\<lambda>m. True"
      and name = "''a.pdf''" and min_chars = 20
      and ps = "[ExtractNone,
        ExtractText [32, 10, 1575, 1604, 1587, 1604, 1575, 1605, 1575, 1604, 1587, 1604, 1575, 1605, 1575, 1604, 1587, 1604, 1575, 1605, 1593, 32]]", OF i, THEN conjunct2]
  note w3 = detector_true_iff_page_qualifies_before_failure [where importable = "\<lambda>m. True"
      and name = "''a.pdf''" and min_chars = 20
      and ps = "[ExtractText [32, 97, 10], ExtractRaises ''bad page'',
        ExtractText [32, 10, 1575, 1604, 1587, 1604, 1575, 1605, 1575, 1604, 1587, 1604, 1575, 1605, 1575, 1604, 1587, 1604, 1575, 1605, 1593, 1604, 32]]", OF i, THEN conjunct1]
  have c1: "has_extractable_text (\<lambda>m. True)
     (Opened [ExtractNone, ExtractText [32, 97, 10], ExtractText [32, 10, 1575, 1604, 1587, 1604, 1575, 1605, 1575, 1604, 1587, 1604, 1575, 1605, 1575, 1604, 1587, 1604, 1575, 1605, 1593, 1604, 32]])
     ''a.pdf'' 20 = Inr (True, [])"
    using w1 a by (simp add: strip_def py_isspace_def)
  have c2: "has_extractable_text (\<lambda>m. True)
     (Opened [ExtractNone, ExtractText [32, 10, 1575, 1604, 1587, 1604, 1575, 1605, 1575, 1604, 1587, 1604, 1575, 1605, 1575, 1604, 1587, 1604, 1575, 1605, 1593, 32]])
     ''a.pdf'' 20 = Inr (False, [])"
    using w2 b by (simp add: strip_def py_isspace_def)
  have c3: "\<exists>out. has_extractable_text (\<lambda>m. True)
     (Opened [ExtractText [32, 97, 10], ExtractRaises ''bad page'', ExtractText [32, 10, 1575, 1604, 1587, 1604, 1575, 1605, 1575, 1604, 1587, 1604, 1575, 1605, 1575, 1604, 1587, 1604, 1575, 1605, 1593, 1604, 32]])
     ''a.pdf'' 20 = Inr (False, out)"
    using w3 by (simp add: strip_def py_isspace_def)
  from c1 c2 c3 show ?thesis by blast
qed

subsection \<open>The first loop of the directory run\<close>

lemma detector_returns:
  assumes "importable ''pdfplumber''"
  shows "\<exists>b out. has_extractable_text importable pl name k = Inr (b, out)"
proof (cases "read_pdf_text pl k")
  case (Inl e)
  then obtain m where "e = Exception m" using read_pdf_text_exception by blast
  with Inl assms show ?thesis by (auto simp: has_extractable_text_def require_ok)
next
  case (Inr b)
  with assms show ?thesis by (simp add: has_extractable_text_def require_ok)
qed

lemma detector_absorbs:
  assumes "importable ''pdfplumber''" and "read_pdf_text pl k = Inl (Exception m)"
  shows "has_extractable_text importable pl name k = Inr (False, [could_not_read name m])"
  using assms by (simp add: has_extractable_text_def require_ok)

lemma scan_files_disk: "disk (scan_files env files st) = disk st"
proof (induction files arbitrary: st)
  case Nil
  show ?case by simp
next
  case (Cons pdf rest)
  show ?case
    by (simp add: Cons split: sum.splits py_exception.splits prod.splits)
qed

lemma scan_files_ocr_calls: "ocr_calls (scan_files env files st) = ocr_calls st"
proof (induction files arbitrary: st)
  case Nil
  show ?case by simp
next
  case (Cons pdf rest)
  show ?case
    by (simp add: Cons split: sum.splits py_exception.splits prod.splits)
qed

lemma scan_files_needs_mono: "set (needs_ocr st) \<subseteq> set (needs_ocr (scan_files env files st))"
proof (induction files arbitrary: st)
  case Nil
  show ?case by simp
next
  case (Cons pdf rest)
  have a: "set (needs_ocr st) \<subseteq> set (needs_ocr (scan_files env rest (st\<lparr>already_ok := x, warnings := y\<rparr>)))" for x y
    using Cons [of "st\<lparr>already_ok := x, warnings := y\<rparr>"] by simp
  have b: "set (needs_ocr st) \<subseteq> set (needs_ocr (scan_files env rest (st\<lparr>needs_ocr := needs_ocr st @ [pdf], warnings := y\<rparr>)))" for y
    using Cons [of "st\<lparr>needs_ocr := needs_ocr st @ [pdf], warnings := y\<rparr>"] by simp
  have c: "set (needs_ocr st) \<subseteq> set (needs_ocr (scan_files env rest (st\<lparr>errors := x\<rparr>)))" for x
    using Cons [of "st\<lparr>errors := x\<rparr>"] by simp
  show ?case
    using a b c by (simp split: sum.splits py_exception.splits prod.splits)
qed

lemma scan_files_no_errors:
  assumes "can_import env ''pdfplumber''"
  shows "errors (scan_files env files st) = errors st \<and> escaped (scan_files env files st) = escaped st"
proof (induction files arbitrary: st)
  case Nil
  show ?case by simp
next
  case (Cons pdf rest)
  obtain b out where r: "has_extractable_text (can_import env) (plumb env (disk st) pdf) (snd pdf) 20 = Inr (b, out)"
    using detector_returns [of "can_import env", OF assms] by blast
  show ?case by (simp add: r Cons)
qed

lemma scan_files_unreadable:
  assumes "can_import env ''pdfplumber''"
    and "pdf \<in> set files"
    and "has_extractable_text (can_import env) (plumb env (disk st) pdf) (snd pdf) 20 = Inr (False, out)"
  shows "pdf \<in> set (needs_ocr (scan_files env files st))"
  using assms(2,3)
proof (induction files arbitrary: st)
  case Nil
  then show ?case by simp
next
  case (Cons q rest)
  obtain b o' where r: "has_extractable_text (can_import env) (plumb env (disk st) q) (snd q) 20 = Inr (b, o')"
    using detector_returns [of "can_import env", OF assms(1)] by blast
  show ?case
  proof (cases "q = pdf")
    case True
    with r Cons.prems(2) have b: "b = False" by simp
    have "pdf \<in> set (needs_ocr (st\<lparr>needs_ocr := needs_ocr st @ [pdf], warnings := warnings st @ o'\<rparr>))"
      by simp
    then have "pdf \<in> set (needs_ocr (scan_files env rest (st\<lparr>needs_ocr := needs_ocr st @ [pdf], warnings := warnings st @ o'\<rparr>)))"
      using scan_files_needs_mono by blast
    then show ?thesis using r b True by simp
  next
    case False
    with Cons.prems(1) have m: "pdf \<in> set rest" by simp
    have i: "pdf \<in> set (needs_ocr (scan_files env rest st'))" if "disk st' = disk st" for st'
      using Cons.IH [OF m, of st'] Cons.prems(2) that by simp
    show ?thesis using r by (simp add: i)
  qed
qed

lemma scan_files_needs_only:
  assumes "pdf \<in> set (needs_ocr (scan_files env files st))" and "pdf \<notin> set (needs_ocr st)"
  shows "pdf \<in> set files \<and> (\<exists>out. has_extractable_text (can_import env) (plumb env (disk st) pdf) (snd pdf) 20 = Inr (False, out))"
  using assms
proof (induction files arbitrary: st)
  case Nil
  then show ?case by simp
next
  case (Cons q rest)
  show ?case
  proof (cases "has_extractable_text (can_import env) (plumb env (disk st) q) (snd q) 20")
    case (Inl e)
    show ?thesis
    proof (cases e)
      case (Exception m)
      with Inl Cons.prems have "pdf \<in> set (needs_ocr (scan_files env rest (st\<lparr>errors := errors st @ [(q, m)]\<rparr>)))"
        by simp
      from Cons.IH [OF this] Cons.prems(2) show ?thesis by simp
    next
      case (SystemExit m)
      with Inl Cons.prems show ?thesis by simp
    qed
  next
    case (Inr r)
    obtain b out where r: "r = (b, out)" by (cases r)
    show ?thesis
    proof (cases b)
      case True
      with Inr r Cons.prems have "pdf \<in> set (needs_ocr (scan_files env rest (st\<lparr>already_ok := already_ok st @ [q], warnings := warnings st @ out\<rparr>)))"
        by simp
      from Cons.IH [OF this] Cons.prems(2) show ?thesis by simp
    next
      case False
      with Inr r Cons.prems have p: "pdf \<in> set (needs_ocr (scan_files env rest (st\<lparr>needs_ocr := needs_ocr st @ [q], warnings := warnings st @ out\<rparr>)))"
        by simp
      show ?thesis
      proof (cases "pdf = q")
        case True
        with Inr r False show ?thesis by auto
      next
        case ne: False
        with Cons.prems(2) have "pdf \<notin> set (needs_ocr (st\<lparr>needs_ocr := needs_ocr st @ [q], warnings := warnings st @ out\<rparr>))"
          by simp
        from Cons.IH [OF p this] show ?thesis by simp
      qed
    qed
  qed
qed


subsection \<open>C10: the detector never raises\<close>

text \<open>
  C10. With pdfplumber installed, \<open>has_extractable_text\<close> returns a boolean for every
  file and raises nothing: an exception while the file is opened or a page is read is
  caught and the result is false. In the first loop of \<open>process_directory\<close> the branch
  that records an error is therefore never taken (the list of errors and the escaping
  exception stay as they were), and a file that cannot be read is put on the list of
  documents that need OCR.
\<close>

theorem detector_never_raises:
  assumes "can_import env ''pdfplumber''"
  shows "(\<exists>b out. has_extractable_text (can_import env) pl name k = Inr (b, out))
       \<and> (read_pdf_text pl k = Inl (Exception m) \<longrightarrow>
            has_extractable_text (can_import env) pl name k = Inr (False, [could_not_read name m]))
       \<and> errors (scan_files env files st) = errors st
       \<and> escaped (scan_files env files st) = escaped st
       \<and> (\<forall>pdf \<in> set files.
            read_pdf_text (plumb env (disk st) pdf) 20 = Inl (Exception m) \<longrightarrow>
            pdf \<in> set (needs_ocr (scan_files env files st)))"
proof -
  have a: "\<exists>b out. has_extractable_text (can_import env) pl name k = Inr (b, out)"
    using assms by (rule detector_returns)
  have b: "read_pdf_text pl k = Inl (Exception m) \<longrightarrow>
      has_extractable_text (can_import env) pl name k = Inr (False, [could_not_read name m])"
    using assms by (simp add: detector_absorbs)
  have c: "errors (scan_files env files st) = errors st"
    and d: "escaped (scan_files env files st) = escaped st"
    using scan_files_no_errors [OF assms] by simp_all
  have e: "pdf \<in> set (needs_ocr (scan_files env files st))"
    if "pdf \<in> set files" and "read_pdf_text (plumb env (disk st) pdf) 20 = Inl (Exception m)" for pdf
  proof -
    have "has_extractable_text (can_import env) (plumb env (disk st) pdf) (snd pdf) 20 =
        Inr (False, [could_not_read (snd pdf) m])"
      using assms that(2) by (rule detector_absorbs)
    with assms that(1) show ?thesis by (rule scan_files_unreadable)
  qed
  from a b c d e show ?thesis by blast
qed

text \<open>The file \<open>c.pdf\<close> of the example directory cannot be opened.\<close>

theorem detector_never_raises_witness:
  "can_import demo_env ''pdfplumber''
   \<and> has_extractable_text (can_import demo_env) (plumb demo_env demo_fs (''docs'', ''c.pdf''))
       ''c.pdf'' 20 = Inr (False, [could_not_read ''c.pdf'' ''not a PDF''])
   \<and> errors (scan_files demo_env (glob_pdf demo_fs ''docs'') (initial_run demo_fs)) = []
   \<and> escaped (scan_files demo_env (glob_pdf demo_fs ''docs'') (initial_run demo_fs)) = None
   \<and> (''docs'', ''c.pdf'') \<in>
       set (needs_ocr (scan_files demo_env (glob_pdf demo_fs ''docs'') (initial_run demo_fs)))"
proof -
  have i: "can_import demo_env ''pdfplumber''"
    by (simp add: demo_env_def)
  have p: "plumb demo_env demo_fs (''docs'', ''c.pdf'') = OpenRaises ''not a PDF''"
    by (simp add: plumb_def demo_env_def demo_fs_def)
  have r: "read_pdf_text (plumb demo_env (disk (initial_run demo_fs)) (''docs'', ''c.pdf'')) 20 =
      Inl (Exception ''not a PDF'')"
    by (simp add: initial_run_def p read_pdf_text_def)
  have g: "(''docs'', ''c.pdf'') \<in> set (glob_pdf demo_fs ''docs'')"
    by (simp add: glob_pdf_def demo_fs_def ends_with_def)
  note w = detector_never_raises [where env = demo_env
      and pl = "plumb demo_env demo_fs (''docs'', ''c.pdf'')" and k = 20 and m = "''not a PDF''"
      and name = "''c.pdf''" and files = "glob_pdf demo_fs ''docs''"
      and st = "initial_run demo_fs", OF i]
  have w2: "has_extractable_text (can_import demo_env) (plumb demo_env demo_fs (''docs'', ''c.pdf''))
       ''c.pdf'' 20 = Inr (False, [could_not_read ''c.pdf'' ''not a PDF''])"
    using w [THEN conjunct2, THEN conjunct1] r by (simp add: initial_run_def)
  have w3: "errors (scan_files demo_env (glob_pdf demo_fs ''docs'') (initial_run demo_fs)) = []"
    using w [THEN conjunct2, THEN conjunct2, THEN conjunct1] by (simp add: initial_run_def)
  have w4: "escaped (scan_files demo_env (glob_pdf demo_fs ''docs'') (initial_run demo_fs)) = None"
    using w [THEN conjunct2, THEN conjunct2, THEN conjunct2, THEN conjunct1]
    by (simp add: initial_run_def)
  have w5: "(''docs'', ''c.pdf'') \<in>
       set (needs_ocr (scan_files demo_env (glob_pdf demo_fs ''docs'') (initial_run demo_fs)))"
    using w [THEN conjunct2, THEN conjunct2, THEN conjunct2, THEN conjunct2] g r by blast
  from i w2 w3 w4 w5 show ?thesis by blast
qed

subsection \<open>C4: what the detector does with a failure\<close>

text \<open>
  C4 as it stands fails. A document whose first page cannot be parsed and whose second
  page holds twenty letters is reported as having no text: the pages after the failing
  one are not looked at. A file that cannot be opened gives the value false with a
  warning, not an exception for the caller.
\<close>

theorem page_failure_ends_detection:
  "has_extractable_text (\<lambda>m. True)
     (Opened [ExtractRaises ''bad page'',
        ExtractText [1575, 1604, 1587, 1604, 1575, 1605, 32, 1593, 1604, 1610, 1603, 1605, 32,
                     1608, 1585, 1581, 1605, 1577, 32, 1575, 1604, 1604, 1607]])
     ''a.pdf'' 20 = Inr (False, [could_not_read ''a.pdf'' ''bad page''])
   \<and> page_qualifies 20
       (ExtractText [1575, 1604, 1587, 1604, 1575, 1605, 32, 1593, 1604, 1610, 1603, 1605, 32,
                     1608, 1585, 1581, 1605, 1577, 32, 1575, 1604, 1604, 1607])
   \<and> has_extractable_text (\<lambda>m. True) (OpenRaises ''not a PDF'') ''a.pdf'' 20 =
       Inr (False, [could_not_read ''a.pdf'' ''not a PDF''])"
  by (simp add: has_extractable_text_def require_def read_pdf_text_def page_qualifies_def
      strip_def py_isspace_def)

text \<open>
  C4, amended. With pdfplumber installed, every exception raised while the file is
  opened or a page's text is extracted is caught inside the detector: one warning is
  printed and the detector returns false at once. A page that cannot be parsed ends the
  detection, whatever the pages after it hold; only a page before it that reaches the
  threshold has already made the result true.
\<close>

theorem detector_stops_at_first_failure:
  assumes "importable ''pdfplumber''"
  shows "has_extractable_text importable (OpenRaises m) name k =
           Inr (False, [could_not_read name m])
       \<and> (list_all (\<lambda>p. \<not> extract_raises p \<and> \<not> page_qualifies k p) pre \<longrightarrow>
            has_extractable_text importable (Opened (pre @ ExtractRaises m # post)) name k =
              Inr (False, [could_not_read name m]))
       \<and> (list_all (\<lambda>p. \<not> extract_raises p) pre \<and> list_ex (page_qualifies k) pre \<longrightarrow>
            has_extractable_text importable (Opened (pre @ rest)) name k = Inr (True, []))"
  using assms
  by (simp add: has_extractable_text_def require_ok read_pdf_text_def
      scan_pages_stops_at_raise scan_pages_found_before)

theorem detector_stops_at_first_failure_witness:
  "has_extractable_text (\<lambda>m. True) (OpenRaises ''not a PDF'') ''a.pdf'' 20 =
       Inr (False, [could_not_read ''a.pdf'' ''not a PDF''])
   \<and> has_extractable_text (\<lambda>m. True)
       (Opened ([ExtractNone, ExtractText [32, 97]] @ ExtractRaises ''bad page'' #
          [ExtractText [1575, 1604, 1587, 1604, 1575, 1605, 32, 1593, 1604, 1610, 1603, 1605, 32,
                        1608, 1585, 1581, 1605, 1577, 32, 1575, 1604, 1604, 1607]]))
       ''a.pdf'' 20 = Inr (False, [could_not_read ''a.pdf'' ''bad page''])
   \<and> has_extractable_text (\<lambda>m. True)
       (Opened ([ExtractText [97, 98, 99]] @ [ExtractRaises ''bad page''])) ''a.pdf'' 3 =
         Inr (True, [])"
proof -
  have i: "(\<lambda>m::string. True) ''pdfplumber''" by simp
  have a: "list_all (\<lambda>p. \<not> extract_raises p \<and> \<not> page_qualifies 20 p)
      [ExtractNone, ExtractText [32, 97]]"
    by (simp add: page_qualifies_def strip_def py_isspace_def)
  have b: "list_all (\<lambda>p. \<not> extract_raises p) [ExtractText [97, 98, 99]]
      \<and> list_ex (page_qualifies 3) [ExtractText [97, 98, 99]]"
    by (simp add: page_qualifies_def strip_def py_isspace_def)
  note w1 = detector_stops_at_first_failure [where importable = "\<lambda>m. True"
      and m = "''not a PDF''" and name = "''a.pdf''" and k = 20, OF i]
  note w2 = detector_stops_at_first_failure [where importable = "\<lambda>m. True"
      and m = "''bad page''" and name = "''a.pdf''" and k = 20
      and pre = "[ExtractNone, ExtractText [32, 97]]"
      and post = "[ExtractText [1575, 1604, 1587, 1604, 1575, 1605, 32, 1593, 1604, 1610, 1603, 1605, 32,
                        1608, 1585, 1581, 1605, 1577, 32, 1575, 1604, 1604, 1607]]", OF i]
  note w3 = detector_stops_at_first_failure [where importable = "\<lambda>m. True"
      and name = "''a.pdf''" and k = 3 and pre = "[ExtractText [97, 98, 99]]"
      and rest = "[ExtractRaises ''bad page'']", OF i]
  show ?thesis
    using w1 [THEN conjunct1] w2 [THEN conjunct2, THEN conjunct1] a
      w3 [THEN conjunct2, THEN conjunct2] b
    by blast
qed


subsection \<open>The text layer and the merged page\<close>

lemma to_decimals_of_int: "to_decimals d (of_int n) = of_int n"
proof -
  have "(of_int n :: rat) * 10 ^ d = of_int (n * 10 ^ d)" by simp
  then have "round ((of_int n :: rat) * 10 ^ d) = n * 10 ^ d" by (simp only: round_of_int)
  then show ?thesis by (simp add: to_decimals_def)
qed

lemma to_decimals_numeral: "to_decimals d (numeral n) = numeral n"
  using to_decimals_of_int [of d "numeral n"] by simp

lemma text_layer_page_eq:
  "dpi \<noteq> 0 \<Longrightarrow>
   text_layer_page img dpi bidi_text =
     Inr \<lparr>box_w = of_int (img_w img) * 72 / of_int dpi,
          box_h = of_int (img_h img) * 72 / of_int dpi,
          layers = [TextLayer 0 ''Helvetica'' 8
                     (draw_lines (of_int (img_h img) * 72 / of_int dpi - 12)
                        (splitlines bidi_text))]\<rparr>"
  by (simp add: text_layer_page_def Let_def)

lemma text_layer_page_zero_dpi:
  "text_layer_page img 0 bidi_text = Inl (Exception ''division by zero'')"
  by (simp add: text_layer_page_def)

lemma ocr_page_shape:
  assumes "ocr_page env dpi img = Inr page"
  shows "\<exists>bidi_text text_page.
           text_layer_page img dpi bidi_text = Inr text_page \<and>
           page = merge_page (image_page img dpi) (text_page_as_read text_page)"
  using assms
  by (auto simp: ocr_page_def split: sum.splits option.splits)


subsection \<open>C1: the page size in points\<close>

text \<open>
  C1. For a DPI other than zero the text layer of a page has the size
  \<open>pixels * 72 / dpi\<close> in each direction and its lines start at the height less 12. An
  image of 2550 by 3300 pixels at 300 DPI gives a text layer of 612 by 792 points whose
  first line is drawn at \<open>y = 780\<close>, and the merged page has the same size.
\<close>

theorem overlay_page_points:
  assumes "dpi \<noteq> 0"
  shows "text_layer_page img dpi bidi_text =
           Inr \<lparr>box_w = of_int (img_w img) * 72 / of_int dpi,
                box_h = of_int (img_h img) * 72 / of_int dpi,
                layers = [TextLayer 0 ''Helvetica'' 8
                           (draw_lines (of_int (img_h img) * 72 / of_int dpi - 12)
                              (splitlines bidi_text))]\<rparr>
         \<and> text_layer_page \<lparr>img_w = 2550, img_h = 3300, img_data = d\<rparr> 300 bidi_text =
           Inr \<lparr>box_w = 612, box_h = 792,
                layers = [TextLayer 0 ''Helvetica'' 8 (draw_lines 780 (splitlines bidi_text))]\<rparr>
         \<and> (strip line \<noteq> [] \<longrightarrow>
              draw_lines 780 (line # rest) = DrawString 8 780 line # draw_lines 770 rest)
         \<and> (ocr_page env 300 \<lparr>img_w = 2550, img_h = 3300, img_data = d\<rparr> = Inr page \<longrightarrow>
              box_w page = 612 \<and> box_h page = 792)"
proof -
  have a: "text_layer_page img dpi bidi_text =
           Inr \<lparr>box_w = of_int (img_w img) * 72 / of_int dpi,
                box_h = of_int (img_h img) * 72 / of_int dpi,
                layers = [TextLayer 0 ''Helvetica'' 8
                           (draw_lines (of_int (img_h img) * 72 / of_int dpi - 12)
                              (splitlines bidi_text))]\<rparr>"
    using assms by (rule text_layer_page_eq)
  have b: "text_layer_page \<lparr>img_w = 2550, img_h = 3300, img_data = d\<rparr> 300 bidi_text =
           Inr \<lparr>box_w = 612, box_h = 792,
                layers = [TextLayer 0 ''Helvetica'' 8 (draw_lines 780 (splitlines bidi_text))]\<rparr>"
    by (simp add: text_layer_page_def Let_def)
  have c: "strip line \<noteq> [] \<longrightarrow>
              draw_lines 780 (line # rest) = DrawString 8 780 line # draw_lines 770 rest"
    by simp
  have d: "ocr_page env 300 \<lparr>img_w = 2550, img_h = 3300, img_data = d\<rparr> = Inr page \<longrightarrow>
              box_w page = 612 \<and> box_h page = 792"
    by (auto dest!: ocr_page_shape
        simp: merge_page_def image_page_def pillow_number_def to_decimals_numeral)
  from a b c d show ?thesis by blast
qed

text \<open>The same page rasterised at 150 DPI, with the text \<open>Hi\<close>, an empty line, \<open>Bye\<close>.\<close>

theorem overlay_page_points_witness:
  "(150::int) \<noteq> 0
   \<and> text_layer_page \<lparr>img_w = 1275, img_h = 1650, img_data = 7\<rparr> 150 [72, 105, 10, 10, 66, 121, 101, 10] =
       Inr \<lparr>box_w = 612, box_h = 792,
            layers = [TextLayer 0 ''Helvetica'' 8
                       [DrawString 8 780 [72, 105], DrawString 8 760 [66, 121, 101]]]\<rparr>
   \<and> draw_lines 780 [[72, 105], [], [66, 121, 101]] =
       DrawString 8 780 [72, 105] # draw_lines 770 [[], [66, 121, 101]]"
proof -
  have s: "strip [72, 105] \<noteq> []"
    by (simp add: strip_def py_isspace_def)
  have l: "splitlines [72, 105, 10, 10, 66, 121, 101, 10] = [[72, 105], [], [66, 121, 101]]"
    by (simp add: splitlines_def is_linebreak_def)
  have dl: "draw_lines 780 [[72, 105], [], [66, 121, 101]] =
     [DrawString 8 780 [72, 105], DrawString 8 760 [66, 121, 101]]"
    by (simp add: strip_def py_isspace_def)
  have n: "(150::int) \<noteq> 0" by simp
  note w = overlay_page_points [OF n, of "\<lparr>img_w = 1275, img_h = 1650, img_data = 7\<rparr>"
        "[72, 105, 10, 10, 66, 121, 101, 10]" 0 "[72, 105]" "[[], [66, 121, 101]]"]
  show ?thesis
    using w [THEN conjunct1] w [THEN conjunct2, THEN conjunct2, THEN conjunct1] s
    by (simp add: l strip_def py_isspace_def)
qed

subsection \<open>C2: the line offsets\<close>

text \<open>
  C2 fails on a page lower than 22 points: the first line is drawn before \<open>y\<close> is
  compared with the bottom margin. An image 50 pixels high at 300 DPI is a page of 12
  points, and its first line is drawn at \<open>y = 0\<close>, below the margin of 10 points.
\<close>

theorem first_line_below_bottom_margin:
  "text_layer_page \<lparr>img_w = 100, img_h = 50, img_data = 0\<rparr> 300 [72, 105] =
     Inr \<lparr>box_w = 24, box_h = 12,
          layers = [TextLayer 0 ''Helvetica'' 8 [DrawString 8 0 [72, 105]]]\<rparr>"
  by (simp add: text_layer_page_def Let_def splitlines_def is_linebreak_def strip_def py_isspace_def)

text \<open>
  On a page of 22 points or more (\<open>y\<close> starts at 10 or above) the claim holds: line
  \<open>i\<close> is drawn at \<open>y - 10 * i\<close>, that is \<open>12 + 10 * i\<close> below the top, when it is not
  blank and that height is not below the margin, and nothing else is drawn.
\<close>

lemma filter_upt_Suc:
  "filter P [0..<Suc n] = (if P 0 then [0] else []) @ map Suc (filter (\<lambda>i. P (Suc i)) [0..<n])"
proof -
  have "[0..<Suc n] = 0 # map Suc [0..<n]"
    by (simp add: upt_conv_Cons map_Suc_upt del: upt_Suc)
  then show ?thesis by (simp add: filter_map comp_def del: upt_Suc)
qed

lemma draw_lines_on_tall_page:
  "10 \<le> y \<Longrightarrow>
   draw_lines y lines =
     map (\<lambda>i. DrawString 8 (y - 10 * of_nat i) (lines ! i))
       (filter (\<lambda>i. strip (lines ! i) \<noteq> [] \<and> 10 \<le> y - 10 * of_nat i) [0..<length lines])"
proof (induction lines arbitrary: y)
  case Nil
  show ?case by simp
next
  case (Cons l rest)
  show ?case
  proof (cases "y - 10 < 10")
    case True
    then have "\<not> (10 \<le> y - 10 * of_nat (Suc i))" for i :: nat
    proof -
      have "0 \<le> (of_nat i :: rat)" by simp
      then show ?thesis using True by (simp add: algebra_simps)
    qed
    then have "filter (\<lambda>i. strip ((l # rest) ! Suc i) \<noteq> [] \<and> 10 \<le> y - 10 * of_nat (Suc i)) [0..<length rest] = []"
      by (simp del: of_nat_Suc)
    then show ?thesis
      using True Cons.prems by (simp add: filter_upt_Suc del: upt_Suc of_nat_Suc)
  next
    case False
    then have "10 \<le> y - 10" by simp
    from Cons.IH [OF this] have ih: "draw_lines (y - 10) rest =
       map (\<lambda>i. DrawString 8 (y - 10 - 10 * of_nat i) (rest ! i))
        (filter (\<lambda>i. strip (rest ! i) \<noteq> [] \<and> 10 \<le> y - 10 - 10 * of_nat i) [0..<length rest])" .
    have e: "y - 10 - 10 * of_nat i = y - 10 * of_nat (Suc i)" for i :: nat
      by (simp add: algebra_simps)
    show ?thesis
      using False Cons.prems
      by (simp add: filter_upt_Suc ih e comp_def del: upt_Suc of_nat_Suc)
  qed
qed


subsection \<open>The loop over the images\<close>

lemma ocr_page_first_layer:
  assumes "ocr_page env dpi img = Inr page"
  shows "hd (layers page) = ImageLayer img"
  using ocr_page_shape [OF assms] by (auto simp: merge_page_def image_page_def)

lemma add_pages_result:
  "add_pages env dpi images writer = Inr out \<Longrightarrow>
   \<exists>pages. out = writer @ pages \<and> length pages = length images \<and>
     (\<forall>i<length images. ocr_page env dpi (images ! i) = Inr (pages ! i))"
proof (induction images arbitrary: writer)
  case Nil
  then show ?case by simp
next
  case (Cons img images)
  from Cons.prems obtain p where p: "ocr_page env dpi img = Inr p"
    and r: "add_pages env dpi images (writer @ [p]) = Inr out"
    by (auto split: sum.splits)
  from Cons.IH [OF r] obtain pages where o: "out = (writer @ [p]) @ pages"
    and l: "length pages = length images"
    and a: "\<forall>i<length images. ocr_page env dpi (images ! i) = Inr (pages ! i)"
    by blast
  have "\<forall>i<length (img # images). ocr_page env dpi ((img # images) ! i) = Inr ((p # pages) ! i)"
    using p a by (auto simp: nth_Cons split: nat.splits)
  with o l show ?case by (intro exI [of _ "p # pages"]) simp
qed

lemma map_of_update_same: "map_of (AList.update k v al) k = Some v"
  by (simp add: update_conv')

lemma write_pdf_done:
  "write_pdf env fs output_path pages = (None, fs') \<Longrightarrow>
   map_of fs' output_path = Some (PdfOut pages)"
  by (auto simp: write_pdf_def map_of_update_same split: option.splits)

subsection \<open>C6: the pages of the output\<close>

text \<open>
  C6. When \<open>ocr_pdf\<close> returns without an exception, the file it wrote holds exactly one
  page for each image the rasteriser gave, in the same order: page \<open>i\<close> is the merged
  page of image \<open>i\<close> and shows that image.
\<close>

theorem output_pages_follow_images:
  assumes "ocr_pdf env fs pdf_path output_path dpi = (None, fs')"
  shows "\<exists>images pages.
           rasterize env fs pdf_path dpi = Inr images \<and>
           map_of fs' output_path = Some (PdfOut pages) \<and>
           length pages = length images \<and>
           (\<forall>i<length images.
              ocr_page env dpi (images ! i) = Inr (pages ! i) \<and>
              hd (layers (pages ! i)) = ImageLayer (images ! i))"
proof -
  from assms obtain images writer where r: "rasterize env fs pdf_path dpi = Inr images"
    and a: "add_pages env dpi images [] = Inr writer"
    and w: "write_pdf env fs output_path writer = (None, fs')"
    by (auto simp: ocr_pdf_def split: sum.splits if_splits)
  from add_pages_result [OF a] have l: "length writer = length images"
    and p: "\<forall>i<length images. ocr_page env dpi (images ! i) = Inr (writer ! i)"
    by auto
  from p have h: "\<forall>i<length images. hd (layers (writer ! i)) = ImageLayer (images ! i)"
    by (auto dest: ocr_page_first_layer)
  from r write_pdf_done [OF w] l p h show ?thesis by blast
qed

text \<open>The document \<open>b.pdf\<close> of the example directory, written to \<open>out/b.pdf\<close>.\<close>

lemma demo_requirements: "require_all (can_import demo_env) ocr_requirements = Inr ()"
  by (simp add: ocr_requirements_def require_def demo_env_def)

lemma demo_rasterize:
  "rasterize demo_env demo_fs (''docs'', ''b.pdf'') 300 =
     Inr [\<lparr>img_w = 2550, img_h = 3300, img_data = 7\<rparr>,
          \<lparr>img_w = 2550, img_h = 3300, img_data = 8\<rparr>]"
  by (simp add: rasterize_def demo_env_def demo_fs_def)

lemma demo_ocr_page:
  "ocr_page demo_env 300 \<lparr>img_w = 2550, img_h = 3300, img_data = n\<rparr> =
     Inr \<lparr>box_w = 612, box_h = 792,
          layers = [ImageLayer \<lparr>img_w = 2550, img_h = 3300, img_data = n\<rparr>,
                    TextLayer 0 ''Helvetica'' 8
                      [DrawString 8 780 [72, 105], DrawString 8 760 [66, 121, 101]]]\<rparr>"
  by (simp add: ocr_page_def demo_env_def text_layer_page_def Let_def splitlines_def
      is_linebreak_def strip_def py_isspace_def merge_page_def image_page_def
      text_page_as_read_def pillow_number_def to_decimals_numeral)

lemma demo_ocr_pdf:
  "ocr_pdf demo_env demo_fs (''docs'', ''b.pdf'') (''out'', ''b.pdf'') 300 =
     (None, demo_fs @ [((''out'', ''b.pdf''),
        PdfOut [\<lparr>box_w = 612, box_h = 792,
          layers = [ImageLayer \<lparr>img_w = 2550, img_h = 3300, img_data = 7\<rparr>,
                    TextLayer 0 ''Helvetica'' 8
                      [DrawString 8 780 [72, 105], DrawString 8 760 [66, 121, 101]]]\<rparr>,
                \<lparr>box_w = 612, box_h = 792,
          layers = [ImageLayer \<lparr>img_w = 2550, img_h = 3300, img_data = 8\<rparr>,
                    TextLayer 0 ''Helvetica'' 8
                      [DrawString 8 780 [72, 105], DrawString 8 760 [66, 121, 101]]]\<rparr>])])"
proof -
  have i: "can_import demo_env ''pypdf''" by (simp add: demo_env_def)
  have w: "open_error demo_env p = None" "write_error demo_env p = None" for p
    by (simp_all add: demo_env_def)
  show ?thesis
    by (simp add: ocr_pdf_def demo_requirements i demo_rasterize demo_ocr_page write_pdf_def w)
       (simp add: demo_fs_def)
qed

theorem output_pages_follow_images_witness:
  "fst (ocr_pdf demo_env demo_fs (''docs'', ''b.pdf'') (''out'', ''b.pdf'') 300) = None
   \<and> (\<exists>pages.
        map_of (snd (ocr_pdf demo_env demo_fs (''docs'', ''b.pdf'') (''out'', ''b.pdf'') 300))
          (''out'', ''b.pdf'') = Some (PdfOut pages) \<and>
        length pages = 2 \<and>
        hd (layers (pages ! 0)) = ImageLayer \<lparr>img_w = 2550, img_h = 3300, img_data = 7\<rparr> \<and>
        hd (layers (pages ! 1)) = ImageLayer \<lparr>img_w = 2550, img_h = 3300, img_data = 8\<rparr>)"
proof -
  have n: "fst (ocr_pdf demo_env demo_fs (''docs'', ''b.pdf'') (''out'', ''b.pdf'') 300) = None"
    by (simp add: demo_ocr_pdf)
  then have e: "ocr_pdf demo_env demo_fs (''docs'', ''b.pdf'') (''out'', ''b.pdf'') 300 =
      (None, snd (ocr_pdf demo_env demo_fs (''docs'', ''b.pdf'') (''out'', ''b.pdf'') 300))"
    by (metis prod.collapse)
  from output_pages_follow_images [OF e] obtain images pages
    where r: "rasterize demo_env demo_fs (''docs'', ''b.pdf'') 300 = Inr images"
      and m: "map_of (snd (ocr_pdf demo_env demo_fs (''docs'', ''b.pdf'') (''out'', ''b.pdf'') 300))
          (''out'', ''b.pdf'') = Some (PdfOut pages)"
      and l: "length pages = length images"
      and h: "\<forall>i<length images. hd (layers (pages ! i)) = ImageLayer (images ! i)"
    by blast
  from r have i: "images = [\<lparr>img_w = 2550, img_h = 3300, img_data = 7\<rparr>,
          \<lparr>img_w = 2550, img_h = 3300, img_data = 8\<rparr>]"
    by (simp add: demo_rasterize)
  from h i have "hd (layers (pages ! 0)) = ImageLayer \<lparr>img_w = 2550, img_h = 3300, img_data = 7\<rparr>"
    and "hd (layers (pages ! 1)) = ImageLayer \<lparr>img_w = 2550, img_h = 3300, img_data = 8\<rparr>"
    by auto
  with n m l i show ?thesis by auto
qed

subsection \<open>C9: the sizes of the two pages\<close>






subsection \<open>What a run changes on disk\<close>

lemma write_pdf_frame:
  "write_pdf env fs output_path pages = (e, fs') \<Longrightarrow> p \<noteq> output_path \<Longrightarrow>
   map_of fs' p = map_of fs p"
  by (auto simp: write_pdf_def update_conv' split: option.splits)

lemma ocr_pdf_frame:
  "ocr_pdf env fs pdf_path output_path dpi = (e, fs') \<Longrightarrow> p \<noteq> output_path \<Longrightarrow>
   map_of fs' p = map_of fs p"
  by (auto simp: ocr_pdf_def split: sum.splits if_splits dest: write_pdf_frame)

lemma mkstemp_fresh:
  assumes "mkstemp env fs dir suffix = Inr (tmp, fs1)"
  shows "map_of fs tmp = None \<and> fs1 = AList.update tmp EmptyFile fs"
proof -
  from assms obtain n ns where
    f: "filter (\<lambda>n. map_of fs (dir, ''tmp'' @ n @ suffix) = None) (temp_names env) = n # ns"
    and t: "tmp = (dir, ''tmp'' @ n @ suffix)"
    and u: "fs1 = AList.update (dir, ''tmp'' @ n @ suffix) EmptyFile fs"
    by (auto simp: mkstemp_def split: list.splits)
  have "n \<in> set (filter (\<lambda>n. map_of fs (dir, ''tmp'' @ n @ suffix) = None) (temp_names env))"
    unfolding f by simp
  then have "map_of fs (dir, ''tmp'' @ n @ suffix) = None"
    unfolding set_filter by blast
  with t u show ?thesis by simp
qed

lemma os_replace_frame:
  "os_replace env fs src dst = Inr fs' \<Longrightarrow> p \<noteq> src \<Longrightarrow> p \<noteq> dst \<Longrightarrow>
   map_of fs' p = map_of fs p"
  by (auto simp: os_replace_def update_conv' split: option.splits)

lemma os_unlink_frame:
  "os_unlink env fs t = Inr fs' \<Longrightarrow> p \<noteq> t \<Longrightarrow> map_of fs' p = map_of fs p"
  by (auto simp: os_unlink_def split: option.splits)

lemma on_failure_frame_none:
  "map_of (disk (on_failure env pdf None e st)) p = map_of (disk st) p"
  by (cases e) (simp_all add: on_failure_def)

lemma on_failure_frame_some:
  assumes "p \<noteq> t"
  shows "map_of (disk (on_failure env pdf (Some t) e st)) p = map_of (disk st) p"
proof (cases e)
  case (SystemExit m)
  then show ?thesis by (simp add: on_failure_def)
next
  case (Exception m)
  show ?thesis
  proof (cases "os_unlink env (disk st) t")
    case (Inl x)
    with Exception show ?thesis by (simp add: on_failure_def)
  next
    case (Inr fs')
    from os_unlink_frame [OF Inr assms] Exception Inr show ?thesis
      by (simp add: on_failure_def)
  qed
qed

lemma on_failure_ocr_calls: "ocr_calls (on_failure env pdf tmp e st) = ocr_calls st"
  by (cases e; cases tmp) (auto simp: on_failure_def split: sum.splits)

lemma process_one_ocr_calls:
  "set (ocr_calls (process_one env output_dir dpi pdf st)) \<subseteq> insert pdf (set (ocr_calls st))"
  by (auto simp: process_one_def on_failure_ocr_calls split: option.splits sum.splits prod.splits)

lemma process_one_frame:
  assumes "p \<noteq> pdf" and "map_of (disk st) p \<noteq> None"
    and "\<forall>d. output_dir = Some d \<longrightarrow> p \<noteq> (d, snd pdf)"
  shows "map_of (disk (process_one env output_dir dpi pdf st)) p = map_of (disk st) p"
proof (cases output_dir)
  case None
  show ?thesis
  proof (cases "mkstemp env (disk st) (fst pdf) ''.tmp.pdf''")
    case (Inl e)
    with None show ?thesis by (simp add: process_one_def on_failure_frame_none)
  next
    case (Inr r)
    obtain tmp fs1 where r: "r = (tmp, fs1)" by (cases r)
    from mkstemp_fresh [OF Inr [unfolded r]]
    have f: "map_of (disk st) tmp = None" and u: "fs1 = AList.update tmp EmptyFile (disk st)"
      by simp_all
    from f assms(2) have ne: "p \<noteq> tmp" by auto
    from u ne have m1: "map_of fs1 p = map_of (disk st) p" by (simp add: update_conv')
    obtain e fs2 where o: "ocr_pdf env fs1 pdf tmp dpi = (e, fs2)"
      by (cases "ocr_pdf env fs1 pdf tmp dpi")
    from ocr_pdf_frame [OF o ne] m1 have m2: "map_of fs2 p = map_of (disk st) p" by simp
    show ?thesis
    proof (cases e)
      case (Some x)
      with None Inr r o m2 ne show ?thesis
        by (simp add: process_one_def on_failure_frame_some)
    next
      case n: None
      show ?thesis
      proof (cases "os_replace env fs2 tmp pdf")
        case (Inl x)
        with None Inr r o n m2 ne show ?thesis
          by (simp add: process_one_def on_failure_frame_some)
      next
        case i: (Inr fs3)
        from os_replace_frame [OF i ne assms(1)] m2 have "map_of fs3 p = map_of (disk st) p"
          by simp
        with None Inr r o n i show ?thesis by (simp add: process_one_def)
      qed
    qed
  qed
next
  case (Some d')
  with assms(3) have ne: "p \<noteq> (d', snd pdf)" by simp
  obtain e fs2 where o: "ocr_pdf env (disk st) pdf (d', snd pdf) dpi = (e, fs2)"
    by (cases "ocr_pdf env (disk st) pdf (d', snd pdf) dpi")
  from ocr_pdf_frame [OF o ne] have m2: "map_of fs2 p = map_of (disk st) p" .
  show ?thesis
    using Some o m2 by (cases e) (simp_all add: process_one_def on_failure_frame_none)
qed

lemma ocr_loop_frame:
  assumes "p \<notin> set todo" and "map_of (disk st) p \<noteq> None"
    and "list_all (\<lambda>q. fst q = fst p) todo"
  shows "map_of (disk (ocr_loop env output_dir dpi todo st)) p = map_of (disk st) p
       \<and> set (ocr_calls (ocr_loop env output_dir dpi todo st)) \<subseteq> set todo \<union> set (ocr_calls st)"
  using assms
proof (induction todo arbitrary: st)
  case Nil
  show ?case by simp
next
  case (Cons q rest)
  let ?st' = "process_one env output_dir dpi q st"
  from Cons.prems have ne: "p \<noteq> q" and nr: "p \<notin> set rest" and dq: "fst q = fst p"
    and dr: "list_all (\<lambda>q. fst q = fst p) rest"
    by auto
  have nd: "p \<noteq> (d, snd q)" for d
    using ne dq by (cases p; cases q) auto
  have f: "map_of (disk ?st') p = map_of (disk st) p"
    using nd by (intro process_one_frame [OF ne Cons.prems(2)]) simp
  have c: "set (ocr_calls ?st') \<subseteq> insert q (set (ocr_calls st))"
    by (rule process_one_ocr_calls)
  show ?case
  proof (cases "escaped ?st' \<noteq> None")
    case True
    with f c show ?thesis by (auto simp: Let_def)
  next
    case False
    from f Cons.prems(2) have e: "map_of (disk ?st') p \<noteq> None" by simp
    from Cons.IH [OF nr e dr] f c False show ?thesis by (auto simp: Let_def)
  qed
qed

lemma glob_pdf_member:
  "q \<in> set (glob_pdf fs directory) \<Longrightarrow> fst q = directory \<and> map_of fs q \<noteq> None"
  by (auto simp: glob_pdf_def map_of_eq_None_iff)

lemma scan_files_needs_subset:
  "q \<in> set (needs_ocr (scan_files env files (initial_run fs))) \<Longrightarrow> q \<in> set files"
  using scan_files_needs_only [of q env files "initial_run fs"]
  by (simp add: initial_run_def)

lemma accessible_untouched:
  assumes "fst pdf = directory" and "map_of fs pdf \<noteq> None"
    and "has_extractable_text (can_import env) (plumb env fs pdf) (snd pdf) 20 = Inr (True, out)"
  shows "map_of (disk (process_directory env fs directory output_dir dry_run dpi)) pdf = map_of fs pdf
       \<and> pdf \<notin> set (ocr_calls (process_directory env fs directory output_dir dry_run dpi))
       \<and> pdf \<notin> set (needs_ocr (process_directory env fs directory output_dir dry_run dpi))"
proof -
  let ?files = "glob_pdf fs directory"
  let ?st1 = "scan_files env ?files (initial_run fs)"
  have d1: "disk ?st1 = fs" by (simp add: scan_files_disk initial_run_def)
  have c1: "ocr_calls ?st1 = []" by (simp add: scan_files_ocr_calls initial_run_def)
  have n1: "pdf \<notin> set (needs_ocr ?st1)"
  proof
    assume "pdf \<in> set (needs_ocr ?st1)"
    from scan_files_needs_only [OF this] assms(3) show False
      by (simp add: initial_run_def)
  qed
  have dirs: "list_all (\<lambda>q. fst q = fst pdf) (needs_ocr ?st1)"
    using scan_files_needs_subset glob_pdf_member assms(1)
    by (fastforce simp: list_all_iff)
  have e: "map_of (disk ?st1) pdf \<noteq> None" using assms(2) d1 by simp
  note l = ocr_loop_frame [OF n1 e dirs, of env output_dir dpi]
  have lc: "pdf \<notin> set (ocr_calls (ocr_loop env output_dir dpi (needs_ocr ?st1) ?st1))"
    using l n1 c1 by auto
  have ln: "needs_ocr (ocr_loop env output_dir dpi todo st) = needs_ocr st" for todo st
  proof (induction todo arbitrary: st)
    case Nil
    show ?case by simp
  next
    case (Cons q rest)
    have "needs_ocr (on_failure env q tmp x s) = needs_ocr s" for tmp x s
      by (cases x; cases tmp) (auto simp: on_failure_def split: sum.splits)
    then have "needs_ocr (process_one env output_dir dpi q st) = needs_ocr st"
      by (auto simp: process_one_def split: option.splits sum.splits prod.splits)
    with Cons show ?case by (simp add: Let_def)
  qed
  show ?thesis
    using d1 c1 n1 l lc ln [of "needs_ocr ?st1" ?st1]
    by (auto simp: process_directory_def Let_def initial_run_def split: option.splits)
qed


subsection \<open>C8: a document that has its text is left alone\<close>

text \<open>
  C8. A PDF of the directory on which the detector returns true is not put on the list
  of documents that need OCR, \<open>ocr_pdf\<close> (which alone rasterises and recognises) is
  never called on it, and its file is the same after the run as before, whatever
  happens to the other documents. Running the program again on the directory as the
  first run left it changes nothing for this document either.
\<close>

theorem accessible_document_passes_through:
  assumes "pdf \<in> set (glob_pdf fs directory)"
    and "has_extractable_text (can_import env) (plumb env fs pdf) (snd pdf) 20 = Inr (True, out)"
  shows "map_of (disk (process_directory env fs directory output_dir dry_run dpi)) pdf = map_of fs pdf
       \<and> pdf \<notin> set (ocr_calls (process_directory env fs directory output_dir dry_run dpi))
       \<and> pdf \<notin> set (needs_ocr (process_directory env fs directory output_dir dry_run dpi))
       \<and> map_of (disk (process_directory env
            (disk (process_directory env fs directory output_dir dry_run dpi))
            directory output_dir dry_run dpi)) pdf = map_of fs pdf
       \<and> pdf \<notin> set (ocr_calls (process_directory env
            (disk (process_directory env fs directory output_dir dry_run dpi))
            directory output_dir dry_run dpi))"
proof -
  let ?fs1 = "disk (process_directory env fs directory output_dir dry_run dpi)"
  from glob_pdf_member [OF assms(1)] have d: "fst pdf = directory" and e: "map_of fs pdf \<noteq> None"
    by simp_all
  note first = accessible_untouched [OF d e assms(2), of output_dir dry_run dpi]
  from first have same: "map_of ?fs1 pdf = map_of fs pdf" by simp
  then have pl: "plumb env ?fs1 pdf = plumb env fs pdf" by (simp add: plumb_def)
  from same e have e1: "map_of ?fs1 pdf \<noteq> None" by simp
  from assms(2) pl
  have t1: "has_extractable_text (can_import env) (plumb env ?fs1 pdf) (snd pdf) 20 = Inr (True, out)"
    by simp
  note second = accessible_untouched [OF d e1 t1, of output_dir dry_run dpi]
  from first second same show ?thesis by simp
qed

text \<open>The document \<open>a.pdf\<close> of the example directory, processed in place.\<close>

lemma demo_glob:
  "glob_pdf demo_fs ''docs'' = [(''docs'', ''a.pdf''), (''docs'', ''b.pdf''), (''docs'', ''c.pdf'')]"
  by (simp add: glob_pdf_def demo_fs_def ends_with_def)

lemma demo_detect_a:
  "has_extractable_text (can_import demo_env) (plumb demo_env demo_fs (''docs'', ''a.pdf''))
     (snd (''docs'', ''a.pdf'')) 20 = Inr (True, [])"
  by (simp add: has_extractable_text_def require_def demo_env_def plumb_def demo_fs_def
      read_pdf_text_def page_qualifies_def strip_def py_isspace_def)

theorem accessible_document_passes_through_witness:
  "(''docs'', ''a.pdf'') \<in> set (glob_pdf demo_fs ''docs'')
   \<and> has_extractable_text (can_import demo_env) (plumb demo_env demo_fs (''docs'', ''a.pdf''))
       ''a.pdf'' 20 = Inr (True, [])
   \<and> map_of (disk (process_directory demo_env demo_fs ''docs'' None False 300)) (''docs'', ''a.pdf'')
       = Some (Bytes 12)
   \<and> (''docs'', ''a.pdf'') \<notin> set (ocr_calls (process_directory demo_env demo_fs ''docs'' None False 300))
   \<and> map_of (disk (process_directory demo_env
         (disk (process_directory demo_env demo_fs ''docs'' None False 300)) ''docs'' None False 300))
       (''docs'', ''a.pdf'') = Some (Bytes 12)"
proof -
  have g: "(''docs'', ''a.pdf'') \<in> set (glob_pdf demo_fs ''docs'')"
    by (simp add: demo_glob)
  have m: "map_of demo_fs (''docs'', ''a.pdf'') = Some (Bytes 12)"
    by (simp add: demo_fs_def)
  from accessible_document_passes_through [OF g demo_detect_a, of None False 300] g m demo_detect_a
  show ?thesis by simp
qed

subsection \<open>C5: processing in place\<close>

text \<open>
  C5 fails when a library that \<open>ocr_pdf\<close> requires is not installed. The temporary
  file exists before \<open>ocr_pdf\<close> is called; \<open>_require\<close> leaves through \<open>sys.exit\<close>,
  and \<open>SystemExit\<close> passes the handler that would remove the file. With pytesseract
  missing and one scanned document in the directory, the run ends with the empty
  temporary file still in the directory.
\<close>

theorem temporary_file_left_behind:
  "disk (process_directory (demo_env\<lparr>can_import := (\<lambda>m. m \<noteq> ''pytesseract'')\<rparr>)
           [((''docs'', ''b.pdf''), Bytes 11)] ''docs'' None False 300) =
     [((''docs'', ''b.pdf''), Bytes 11), ((''docs'', ''tmpk3x9q2ab.tmp.pdf''), EmptyFile)]
   \<and> escaped (process_directory (demo_env\<lparr>can_import := (\<lambda>m. m \<noteq> ''pytesseract'')\<rparr>)
           [((''docs'', ''b.pdf''), Bytes 11)] ''docs'' None False 300) =
     Some (SystemExit (missing_dependency ''pytesseract''))
   \<and> errors (process_directory (demo_env\<lparr>can_import := (\<lambda>m. m \<noteq> ''pytesseract'')\<rparr>)
           [((''docs'', ''b.pdf''), Bytes 11)] ''docs'' None False 300) = []"
proof -
  let ?env = "demo_env\<lparr>can_import := (\<lambda>m. m \<noteq> ''pytesseract'')\<rparr>"
  let ?fs = "[((''docs'', ''b.pdf''), Bytes (11::nat))]"
  let ?tmp = "(''docs'', ''tmpk3x9q2ab.tmp.pdf'')"
  let ?st1 = "\<lparr>disk = ?fs, already_ok = [], needs_ocr = [(''docs'', ''b.pdf'')], errors = [],
      warnings = [], ocr_calls = [], escaped = None\<rparr>"
  have g: "glob_pdf ?fs ''docs'' = [(''docs'', ''b.pdf'')]"
    by (simp add: glob_pdf_def ends_with_def)
  have s: "scan_files ?env [(''docs'', ''b.pdf'')] (initial_run ?fs) = ?st1"
    by (simp add: has_extractable_text_def require_def demo_env_def plumb_def
        read_pdf_text_def page_qualifies_def strip_def initial_run_def)
  have t: "mkstemp ?env ?fs ''docs'' ''.tmp.pdf'' = Inr (?tmp, ?fs @ [(?tmp, EmptyFile)])"
    by (simp add: mkstemp_def demo_env_def)
  have o: "ocr_pdf ?env (?fs @ [(?tmp, EmptyFile)]) (''docs'', ''b.pdf'') ?tmp 300 =
      (Some (SystemExit (missing_dependency ''pytesseract'')), ?fs @ [(?tmp, EmptyFile)])"
    by (simp add: ocr_pdf_def ocr_requirements_def require_def)
  have p: "process_one ?env None 300 (''docs'', ''b.pdf'') ?st1 =
      \<lparr>disk = ?fs @ [(?tmp, EmptyFile)], already_ok = [], needs_ocr = [(''docs'', ''b.pdf'')],
       errors = [], warnings = [], ocr_calls = [(''docs'', ''b.pdf'')],
       escaped = Some (SystemExit (missing_dependency ''pytesseract''))\<rparr>"
    using t o by (simp add: process_one_def on_failure_def)
  have l: "ocr_loop ?env None 300 [(''docs'', ''b.pdf'')] ?st1 =
      process_one ?env None 300 (''docs'', ''b.pdf'') ?st1"
    by (simp add: p)
  have m: "make_output_dir ?env None = None"
    by (simp add: make_output_dir_def)
  have "process_directory ?env ?fs ''docs'' None False 300 =
      process_one ?env None 300 (''docs'', ''b.pdf'') ?st1"
    unfolding process_directory_def g s Let_def by (simp add: m l del: ocr_loop.simps)
  then show ?thesis by (simp add: p)
qed

text \<open>
  For the failures the handler catches the claim holds: when a round of the second loop
  in place records an error and no exception leaves it, the directory is as before.
\<close>

lemma ocr_pdf_output_only:
  assumes "ocr_pdf env fs pdf_path output_path dpi = (e, fs')" and "map_of fs output_path \<noteq> None"
  shows "AList.delete output_path fs' = AList.delete output_path fs
       \<and> map_of fs' output_path \<noteq> None"
  using assms
  by (auto simp: ocr_pdf_def write_pdf_def delete_update_same update_conv'
      split: sum.splits if_splits option.splits)

lemma in_place_failure_restores_disk:
  assumes "escaped st = None"
    and "escaped (process_one env None dpi pdf st) = None"
    and "errors (process_one env None dpi pdf st) \<noteq> errors st"
  shows "disk (process_one env None dpi pdf st) = disk st"
proof (cases "mkstemp env (disk st) (fst pdf) ''.tmp.pdf''")
  case (Inl e)
  with assms show ?thesis
    by (cases e) (simp_all add: process_one_def on_failure_def)
next
  case (Inr r)
  obtain tmp fs1 where r: "r = (tmp, fs1)" by (cases r)
  from mkstemp_fresh [OF Inr [unfolded r]]
  have f: "map_of (disk st) tmp = None" and u: "fs1 = AList.update tmp EmptyFile (disk st)"
    by simp_all
  from f have nk: "tmp \<notin> fst ` set (disk st)" by (simp add: map_of_eq_None_iff)
  from u have x1: "map_of fs1 tmp \<noteq> None" by (simp add: update_conv')
  obtain e fs2 where o: "ocr_pdf env fs1 pdf tmp dpi = (e, fs2)"
    by (cases "ocr_pdf env fs1 pdf tmp dpi")
  from ocr_pdf_output_only [OF o x1] u nk
  have d2: "AList.delete tmp fs2 = disk st" and x2: "map_of fs2 tmp \<noteq> None"
    by (simp_all add: delete_update_same)
  have cleanup: "disk (on_failure env pdf (Some tmp) x
        (st\<lparr>disk := fs2, ocr_calls := ocr_calls st @ [pdf]\<rparr>)) = disk st"
    if "escaped (on_failure env pdf (Some tmp) x
        (st\<lparr>disk := fs2, ocr_calls := ocr_calls st @ [pdf]\<rparr>)) = None" for x
  proof (cases x)
    case (SystemExit m)
    with that show ?thesis by (simp add: on_failure_def)
  next
    case (Exception m)
    with that x2 d2 assms(1) show ?thesis
      by (auto simp: on_failure_def os_unlink_def split: option.splits)
  qed
  show ?thesis
  proof (cases e)
    case (Some x)
    with Inr r o assms(2) cleanup [of x] show ?thesis by (simp add: process_one_def)
  next
    case None
    show ?thesis
    proof (cases "os_replace env fs2 tmp pdf")
      case (Inl x)
      with None Inr r o assms(2) cleanup [of x] show ?thesis by (simp add: process_one_def)
    next
      case i: (Inr fs3)
      with None Inr r o assms(3) show ?thesis by (simp add: process_one_def)
    qed
  qed
qed


end
